theory Spec2Isabelle
  imports Complex_Main "HOL-Library.AList"
begin

section \<open>The PR curves plugin: data model\<close>

text \<open>
  The plugin in \<^verbatim>\<open>pr_curves_plugin.py\<close> answers four read-only questions about an event
  store (the multiplexer). Python dictionaries are association lists here, in
  insertion order: the order decides which tag \<^verbatim>\<open>available_steps_impl\<close> samples, and
  \<open>AList.update\<close> is the dictionary assignment \<^verbatim>\<open>d[k] = v\<close> (an existing key keeps its
  place, a new key goes to the end). Floats are only copied, never computed with, so
  the float type is the parameter \<open>'f\<close>.
\<close>

type_synonym run = string
type_synonym tag = string

text \<open>
  A tensor event of the store. \<open>tensor_proto\<close> stands for the array that
  \<^verbatim>\<open>tf.make_ndarray\<close> decodes from it: the list of its first-axis rows, each a vector.
\<close>

record 'f TensorEvent =
  wall_time :: 'f
  step :: int
  tensor_proto :: "'f list list"

text \<open>The dictionary \<^verbatim>\<open>_process_tensor_event\<close> returns, one field per key.\<close>

record 'f CurveEntry =
  entry_wall_time :: 'f
  entry_step :: int
  precision :: "'f list"
  recall :: "'f list"

text \<open>
  A message is a format string with its arguments filled in: literal text, and
  \<^verbatim>\<open>%r\<close> of a string argument (the representation itself is Python's business).
\<close>

datatype piece = Lit string | Repr string

type_synonym message = "piece list"

datatype py_error = KeyError | ValueError message | IndexError | AttributeError

text \<open>
  The multiplexer, as far as the plugin uses it: \<open>Tensors\<close> answers \<open>None\<close> where the
  Python method raises \<^verbatim>\<open>KeyError\<close>; \<open>PluginRunToTagToContent\<close> gives, for a plugin
  name, the dictionary from runs to the dictionary from tags to content.
\<close>

record 'f EventMultiplexer =
  Tensors :: "run \<Rightarrow> tag \<Rightarrow> 'f TensorEvent list option"
  PluginRunToTagToContent :: "string \<Rightarrow> (run \<times> (tag \<times> string) list) list"

text \<open>
  The plugin object: \<open>multiplexer\<close> is \<^verbatim>\<open>self._multiplexer\<close> (\<open>None\<close> when the context
  has no store), \<open>plugin_name\<close> is \<^verbatim>\<open>metadata.PLUGIN_NAME\<close>, which the class binds on
  line 31 and whose value the sources do not give.
\<close>

record 'f PrCurvesPlugin =
  multiplexer :: "'f EventMultiplexer option"
  plugin_name :: string

text \<open>
  The calls an operation makes on the multiplexer are its only effect. Every operation
  takes the calls made so far and returns them extended.
\<close>

datatype query = QueryTensors run tag | QueryPluginRunToTagToContent string

text \<open>
  Modelled from the spec: \<^verbatim>\<open>metadata.PRECISION_INDEX\<close> and \<^verbatim>\<open>metadata.RECALL_INDEX\<close>
  (the module \<^verbatim>\<open>metadata\<close> is not among the sources). The spec fixes the first-axis
  layout: index 0 is the precision vector, index 1 the recall vector.
\<close>

definition PRECISION_INDEX :: nat where
  "PRECISION_INDEX = 0"

definition RECALL_INDEX :: nat where
  "RECALL_INDEX = 1"

section \<open>The operations\<close>

text \<open>Indexing an array along its first axis: out of range raises \<^verbatim>\<open>IndexError\<close>.\<close>

definition getitem :: "'a list \<Rightarrow> nat \<Rightarrow> py_error + 'a" where
  "getitem xs i = (if i < length xs then Inr (xs ! i) else Inl IndexError)"

definition process_tensor_event :: "'f TensorEvent \<Rightarrow> py_error + 'f CurveEntry" where
  "process_tensor_event event =
     (let data_array = tensor_proto event in
      case getitem data_array PRECISION_INDEX of
        Inl err \<Rightarrow> Inl err
      | Inr p \<Rightarrow>
          (case getitem data_array RECALL_INDEX of
             Inl err \<Rightarrow> Inl err
           | Inr r \<Rightarrow>
               Inr \<lparr>entry_wall_time = wall_time event, entry_step = step event,
                    precision = p, recall = r\<rparr>))"

text \<open>The list comprehension over the events of one run: the first error ends it.\<close>

fun process_all :: "'f TensorEvent list \<Rightarrow> py_error + 'f CurveEntry list" where
  "process_all [] = Inr []"
| "process_all (e # es) =
     (case process_tensor_event e of
        Inl err \<Rightarrow> Inl err
      | Inr c \<Rightarrow>
          (case process_all es of
             Inl err \<Rightarrow> Inl err
           | Inr cs \<Rightarrow> Inr (c # cs)))"

text \<open>
  The loop of \<^verbatim>\<open>pr_curves_impl\<close> over the runs, with \<open>response_mapping\<close> as built so
  far. Only \<^verbatim>\<open>KeyError\<close> of the lookup is caught and turned into \<^verbatim>\<open>ValueError\<close>; the
  conversion of the events is outside the \<^verbatim>\<open>try\<close>.
\<close>

fun pr_curves_loop ::
  "'f EventMultiplexer option \<Rightarrow> tag \<Rightarrow> run list \<Rightarrow> (run \<times> 'f CurveEntry list) list \<Rightarrow>
   query list \<Rightarrow> (py_error + (run \<times> 'f CurveEntry list) list) \<times> query list" where
  "pr_curves_loop mux tag [] response_mapping calls = (Inr response_mapping, calls)"
| "pr_curves_loop mux tag (run # runs) response_mapping calls =
     (case mux of
        None \<Rightarrow> (Inl AttributeError, calls)
      | Some m \<Rightarrow>
          (case Tensors m run tag of
             None \<Rightarrow>
               (Inl (ValueError [Lit ''No PR curves could be fetched for run '', Repr run,
                                 Lit '' and tag '', Repr tag]),
                calls @ [QueryTensors run tag])
           | Some tensor_events \<Rightarrow>
               (case process_all tensor_events of
                  Inl err \<Rightarrow> (Inl err, calls @ [QueryTensors run tag])
                | Inr entries \<Rightarrow>
                    pr_curves_loop mux tag runs (AList.update run entries response_mapping)
                      (calls @ [QueryTensors run tag]))))"

definition pr_curves_impl ::
  "'f PrCurvesPlugin \<Rightarrow> run list \<Rightarrow> tag \<Rightarrow> query list \<Rightarrow>
   (py_error + (run \<times> 'f CurveEntry list) list) \<times> query list" where
  "pr_curves_impl self runs tag calls = pr_curves_loop (multiplexer self) tag runs [] calls"

definition tags_impl ::
  "'f PrCurvesPlugin \<Rightarrow> query list \<Rightarrow> (py_error + (run \<times> tag list) list) \<times> query list" where
  "tags_impl self calls =
     (case multiplexer self of
        None \<Rightarrow> (Inl AttributeError, calls)
      | Some m \<Rightarrow>
          (let all_runs = PluginRunToTagToContent m (plugin_name self) in
           (Inr (map (\<lambda>(run, tag_to_content). (run, map fst tag_to_content)) all_runs),
            calls @ [QueryPluginRunToTagToContent (plugin_name self)])))"

text \<open>
  The loop of \<^verbatim>\<open>available_steps_impl\<close> over \<^verbatim>\<open>all_runs.items()\<close>. A run without tags is
  skipped; otherwise the first tag of the run is looked up, and a \<^verbatim>\<open>KeyError\<close> of that
  lookup is not caught.
\<close>

fun available_steps_loop ::
  "'f EventMultiplexer \<Rightarrow> (run \<times> (tag \<times> string) list) list \<Rightarrow> (run \<times> int list) list \<Rightarrow>
   query list \<Rightarrow> (py_error + (run \<times> int list) list) \<times> query list" where
  "available_steps_loop m [] response calls = (Inr response, calls)"
| "available_steps_loop m ((run, []) # rest) response calls =
     available_steps_loop m rest response calls"
| "available_steps_loop m ((run, (tag, content) # others) # rest) response calls =
     (case Tensors m run tag of
        None \<Rightarrow> (Inl KeyError, calls @ [QueryTensors run tag])
      | Some tensor_events \<Rightarrow>
          available_steps_loop m rest (AList.update run (map step tensor_events) response)
            (calls @ [QueryTensors run tag]))"

definition available_steps_impl ::
  "'f PrCurvesPlugin \<Rightarrow> query list \<Rightarrow> (py_error + (run \<times> int list) list) \<times> query list" where
  "available_steps_impl self calls =
     (case multiplexer self of
        None \<Rightarrow> (Inl AttributeError, calls)
      | Some m \<Rightarrow>
          available_steps_loop m (PluginRunToTagToContent m (plugin_name self)) []
            (calls @ [QueryPluginRunToTagToContent (plugin_name self)]))"

text \<open>\<^verbatim>\<open>any\<close> over the values of \<^verbatim>\<open>all_runs\<close>: a dictionary is true when it is not empty.\<close>

definition is_active :: "'f PrCurvesPlugin \<Rightarrow> query list \<Rightarrow> bool \<times> query list" where
  "is_active self calls =
     (case multiplexer self of
        None \<Rightarrow> (False, calls)
      | Some m \<Rightarrow>
          (let all_runs = PluginRunToTagToContent m (plugin_name self) in
           (list_ex (\<lambda>(run, tag_to_content). tag_to_content \<noteq> []) all_runs,
            calls @ [QueryPluginRunToTagToContent (plugin_name self)])))"

section \<open>The routes\<close>

text \<open>
  The query string of a request is a multi-dictionary: \<open>getlist\<close> gives every value of a
  key in order, \<open>get\<close> the first one or \<open>None\<close>.
\<close>

record request =
  args :: "(string \<times> string) list"

definition getlist :: "(string \<times> string) list \<Rightarrow> string \<Rightarrow> string list" where
  "getlist a key = map snd (filter (\<lambda>(k, v). k = key) a)"

definition get :: "(string \<times> string) list \<Rightarrow> string \<Rightarrow> string option" where
  "get a key = (case getlist a key of [] \<Rightarrow> None | v # _ \<Rightarrow> Some v)"

text \<open>
  \<^verbatim>\<open>http_util.Respond\<close> is not among the sources, so a route's answer is the call it
  makes: the positional arguments after \<^verbatim>\<open>request\<close>. The two calls of
  \<^verbatim>\<open>pr_curves_route\<close> that pass a content type (lines 62-65) fix the order: content,
  content type, then the status code, which is \<open>None\<close> when the call leaves it out.
\<close>

datatype py_arg = PyStr string | PyInt int

datatype 'f content =
  Text message
| Curves "(run \<times> 'f CurveEntry list) list"
| Tags "(run \<times> tag list) list"
| Steps "(run \<times> int list) list"

datatype 'f response = Respond (content: "'f content") (content_type: py_arg) (code: "int option")

definition pr_curves_route ::
  "'f PrCurvesPlugin \<Rightarrow> request \<Rightarrow> query list \<Rightarrow> (py_error + 'f response) \<times> query list" where
  "pr_curves_route self req calls =
     (let runs = getlist (args req) ''run'' in
      if runs = [] then
        (Inr (Respond (Text [Lit ''No runs provided when fetching PR curve data''])
                (PyInt 400) None), calls)
      else
        (case get (args req) ''tag'' of
           None \<Rightarrow>
             (Inr (Respond (Text [Lit ''No tag provided when fetching PR curve data''])
                     (PyInt 400) None), calls)
         | Some tag \<Rightarrow>
             if tag = [] then
               (Inr (Respond (Text [Lit ''No tag provided when fetching PR curve data''])
                       (PyInt 400) None), calls)
             else
               (case pr_curves_impl self runs tag calls of
                  (Inr response_mapping, calls') \<Rightarrow>
                    (Inr (Respond (Curves response_mapping) (PyStr ''application/json'') None),
                     calls')
                | (Inl (ValueError e), calls') \<Rightarrow>
                    (Inr (Respond (Text e) (PyStr ''text/plain'') (Some 400)), calls')
                | (Inl err, calls') \<Rightarrow> (Inl err, calls'))))"

definition tags_route ::
  "'f PrCurvesPlugin \<Rightarrow> request \<Rightarrow> query list \<Rightarrow> (py_error + 'f response) \<times> query list" where
  "tags_route self req calls =
     (case tags_impl self calls of
        (Inr result, calls') \<Rightarrow> (Inr (Respond (Tags result) (PyStr ''application/json'') None), calls')
      | (Inl err, calls') \<Rightarrow> (Inl err, calls'))"

definition available_steps_route ::
  "'f PrCurvesPlugin \<Rightarrow> request \<Rightarrow> query list \<Rightarrow> (py_error + 'f response) \<times> query list" where
  "available_steps_route self req calls =
     (case available_steps_impl self calls of
        (Inr result, calls') \<Rightarrow> (Inr (Respond (Steps result) (PyStr ''application/json'') None), calls')
      | (Inl err, calls') \<Rightarrow> (Inl err, calls'))"

section \<open>A small store\<close>

text \<open>
  Two runs: \<open>colors\<close> with two tags, of which \<open>blue/pr_curves\<close> has two events, and
  \<open>idle\<close> without tags.
\<close>

definition demo_events :: "real TensorEvent list" where
  "demo_events =
     [\<lparr>wall_time = 10, step = 0, tensor_proto = [[1/3, 1/2, 1], [1, 1/4, 0]]\<rparr>,
      \<lparr>wall_time = 11, step = 1, tensor_proto = [[1/3, 3/4, 1], [1, 1/2, 0]]\<rparr>]"

definition demo_multiplexer :: "real EventMultiplexer" where
  "demo_multiplexer =
     \<lparr>Tensors = (\<lambda>run tag.
         if run = ''colors'' \<and> (tag = ''blue/pr_curves'' \<or> tag = ''red/pr_curves'')
         then Some demo_events else None),
      PluginRunToTagToContent = (\<lambda>name.
         [(''colors'', [(''red/pr_curves'', ''classifying red''),
                        (''blue/pr_curves'', ''classifying blue'')]),
          (''idle'', [])])\<rparr>"

definition demo_plugin :: "real PrCurvesPlugin" where
  "demo_plugin = \<lparr>multiplexer = Some demo_multiplexer, plugin_name = ''pr_curves''\<rparr>"

section \<open>Tags per run\<close>

text \<open>
  C7. With a store configured, \<open>tags_impl\<close> succeeds and its result has a key for every
  run the store lists for the plugin, in the store's order; a run whose tag
  dictionary is empty is present and maps to the empty value; a store that lists no
  run gives the empty result, which is a result and not an error.
\<close>

theorem tags_impl_keys:
  assumes "multiplexer self = Some m"
  shows "\<exists>result. fst (tags_impl self calls) = Inr result
           \<and> map fst result = map fst (PluginRunToTagToContent m (plugin_name self))
           \<and> (\<forall>run. (run, []) \<in> set (PluginRunToTagToContent m (plugin_name self))
                 \<longrightarrow> (run, []) \<in> set result)
           \<and> (PluginRunToTagToContent m (plugin_name self) = [] \<longrightarrow> result = [])"
  using assms by (force simp: tags_impl_def Let_def)

theorem tags_impl_keys_witness:
  "multiplexer demo_plugin = Some demo_multiplexer
   \<and> (\<exists>result. fst (tags_impl demo_plugin []) = Inr result
         \<and> map fst result = [''colors'', ''idle'']
         \<and> (''idle'', []) \<in> set result)"
  using tags_impl_keys [of demo_plugin demo_multiplexer "[]"]
  by (simp add: demo_plugin_def demo_multiplexer_def)

section \<open>The activity probe\<close>

text \<open>
  C6. \<open>is_active\<close> is true exactly when a store is configured and some run has a tag
  dictionary that is not empty; so it is false without a store and false when every
  run's tag dictionary is empty. It asks the store at most one question, the
  run-to-tags query, and never for tensors.
\<close>

theorem is_active_iff:
  "(fst (is_active self calls) \<longleftrightarrow>
      (\<exists>m. multiplexer self = Some m
         \<and> (\<exists>(run, tag_to_content) \<in> set (PluginRunToTagToContent m (plugin_name self)).
               tag_to_content \<noteq> [])))
   \<and> (multiplexer self = None \<longrightarrow> is_active self calls = (False, calls))
   \<and> (\<exists>qs. snd (is_active self calls) = calls @ qs \<and> length qs \<le> 1
         \<and> (\<forall>run tag. QueryTensors run tag \<notin> set qs))"
  by (cases "multiplexer self") (auto simp: is_active_def Let_def list_ex_iff)

theorem is_active_iff_witness:
  "fst (is_active demo_plugin [])
   \<and> is_active \<lparr>multiplexer = None :: real EventMultiplexer option, plugin_name = ''pr_curves''\<rparr> []
       = (False, [])"
  using is_active_iff [of demo_plugin "[]"]
    is_active_iff [of "\<lparr>multiplexer = None :: real EventMultiplexer option, plugin_name = ''pr_curves''\<rparr>" "[]"]
  by (simp add: demo_plugin_def demo_multiplexer_def)

section \<open>Converting events\<close>

text \<open>
  An event converts exactly when its array has the two rows the indices name; the
  converted entry copies the time and the step and takes the two rows as they are.
\<close>

lemma process_tensor_event_Inr:
  "process_tensor_event e = Inr c \<longleftrightarrow>
     (1 < length (tensor_proto e)
      \<and> c = \<lparr>entry_wall_time = wall_time e, entry_step = step e,
              precision = tensor_proto e ! 0, recall = tensor_proto e ! 1\<rparr>)"
  by (auto simp: process_tensor_event_def getitem_def PRECISION_INDEX_def RECALL_INDEX_def Let_def
      split: if_splits)

lemma process_tensor_event_Inl:
  "process_tensor_event e = Inl err \<longleftrightarrow> (length (tensor_proto e) \<le> 1 \<and> err = IndexError)"
  by (auto simp: process_tensor_event_def getitem_def PRECISION_INDEX_def RECALL_INDEX_def Let_def
      split: if_splits)

lemma process_tensor_event_ok:
  "1 < length (tensor_proto e) \<Longrightarrow>
   process_tensor_event e = Inr \<lparr>entry_wall_time = wall_time e, entry_step = step e,
              precision = tensor_proto e ! 0, recall = tensor_proto e ! 1\<rparr>"
  by (simp add: process_tensor_event_Inr)

lemma process_all_ok:
  "\<forall>e \<in> set es. 1 < length (tensor_proto e) \<Longrightarrow>
   process_all es = Inr (map (\<lambda>e. \<lparr>entry_wall_time = wall_time e, entry_step = step e,
                        precision = tensor_proto e ! 0, recall = tensor_proto e ! 1\<rparr>) es)"
  by (induction es) (simp_all add: process_tensor_event_ok)

lemma process_all_rows:
  "process_all es = Inr cs \<Longrightarrow> \<forall>e \<in> set es. 1 < length (tensor_proto e)"
proof (induction es arbitrary: cs)
  case Nil
  show ?case by simp
next
  case (Cons e es)
  from Cons.prems obtain c cs' where c: "process_tensor_event e = Inr c"
    and cs': "process_all es = Inr cs'"
    by (auto split: sum.splits)
  from c have "1 < length (tensor_proto e)" by (simp add: process_tensor_event_Inr)
  with Cons.IH [OF cs'] show ?case by simp
qed

lemma process_all_Inr:
  "process_all es = Inr cs \<longleftrightarrow>
     ((\<forall>e \<in> set es. 1 < length (tensor_proto e))
      \<and> cs = map (\<lambda>e. \<lparr>entry_wall_time = wall_time e, entry_step = step e,
                        precision = tensor_proto e ! 0, recall = tensor_proto e ! 1\<rparr>) es)"
  using process_all_ok [of es] process_all_rows [of es cs] by auto

lemma process_all_Inl:
  "process_all es = Inl err \<Longrightarrow> err = IndexError"
  by (induction es) (auto simp: process_tensor_event_Inl split: sum.splits)

section \<open>The loop over the requested runs\<close>

lemma pr_curves_loop_calls:
  "pr_curves_loop mux tag runs acc calls =
     (fst (pr_curves_loop mux tag runs acc []), calls @ snd (pr_curves_loop mux tag runs acc []))"
proof (induction runs arbitrary: acc calls)
  case Nil
  show ?case by simp
next
  case (Cons run runs)
  show ?case
    using Cons.IH [of _ "calls @ [QueryTensors run tag]"] Cons.IH [of _ "[QueryTensors run tag]"]
    by (auto split: option.splits sum.splits)
qed

lemma pr_curves_loop_other:
  "fst (pr_curves_loop mux tag runs acc calls) = Inr mapping \<Longrightarrow> r \<notin> set runs \<Longrightarrow>
   map_of mapping r = map_of acc r"
proof (induction runs arbitrary: acc calls)
  case Nil
  then show ?case by simp
next
  case (Cons run runs)
  from Cons.prems(1) obtain events entries where
    "fst (pr_curves_loop mux tag runs (AList.update run entries acc)
            (calls @ [QueryTensors run tag])) = Inr mapping"
    by (auto split: option.splits sum.splits)
  from Cons.IH [OF this] Cons.prems(2) show ?case
    by (simp add: AList.update_conv')
qed

lemma pr_curves_loop_values:
  "fst (pr_curves_loop (Some m) tag runs acc calls) = Inr mapping \<Longrightarrow> r \<in> set runs \<Longrightarrow>
   \<exists>events entries. Tensors m r tag = Some events \<and> process_all events = Inr entries
      \<and> map_of mapping r = Some entries"
proof (induction runs arbitrary: acc calls)
  case Nil
  then show ?case by simp
next
  case (Cons run runs)
  from Cons.prems(1) obtain events entries where
    ev: "Tensors m run tag = Some events" and en: "process_all events = Inr entries" and
    rest: "fst (pr_curves_loop (Some m) tag runs (AList.update run entries acc)
            (calls @ [QueryTensors run tag])) = Inr mapping"
    by (auto split: option.splits sum.splits)
  show ?case
  proof (cases "r \<in> set runs")
    case True
    from Cons.IH [OF rest True] show ?thesis .
  next
    case False
    with Cons.prems(2) have "r = run" by simp
    moreover from pr_curves_loop_other [OF rest False]
    have "map_of mapping r = map_of (AList.update run entries acc) r" .
    ultimately show ?thesis using ev en by (simp add: AList.update_conv')
  qed
qed

lemma pr_curves_loop_keys:
  "fst (pr_curves_loop mux tag runs acc calls) = Inr mapping \<Longrightarrow>
   set (map fst mapping) = set (map fst acc) \<union> set runs
   \<and> (distinct (map fst acc) \<longrightarrow> distinct (map fst mapping))"
proof (induction runs arbitrary: acc calls)
  case Nil
  then show ?case by simp
next
  case (Cons run runs)
  from Cons.prems(1) obtain events entries where
    "fst (pr_curves_loop mux tag runs (AList.update run entries acc)
            (calls @ [QueryTensors run tag])) = Inr mapping"
    by (auto split: option.splits sum.splits)
  from Cons.IH [OF this] show ?case
    by (auto simp: AList.update_keys AList.distinct_update)
qed

lemma pr_curves_loop_total:
  "\<forall>r \<in> set runs. \<exists>events. Tensors m r tag = Some events
      \<and> (\<forall>e \<in> set events. 1 < length (tensor_proto e)) \<Longrightarrow>
   \<exists>mapping. pr_curves_loop (Some m) tag runs acc calls
      = (Inr mapping, calls @ map (\<lambda>r. QueryTensors r tag) runs)"
proof (induction runs arbitrary: acc calls)
  case Nil
  then show ?case by simp
next
  case (Cons run runs)
  from Cons.prems obtain events where ev: "Tensors m run tag = Some events"
    and rows: "\<forall>e \<in> set events. 1 < length (tensor_proto e)" by auto
  from process_all_ok [OF rows] obtain entries where en: "process_all events = Inr entries"
    by blast
  from Cons.prems have "\<forall>r \<in> set runs. \<exists>events. Tensors m r tag = Some events
      \<and> (\<forall>e \<in> set events. 1 < length (tensor_proto e))" by simp
  from Cons.IH [OF this, of "AList.update run entries acc" "calls @ [QueryTensors run tag]"]
  show ?case by (simp add: ev en)
qed

lemma pr_curves_loop_fail:
  assumes "\<forall>r \<in> set pre. \<exists>events. Tensors m r tag = Some events
      \<and> (\<forall>e \<in> set events. 1 < length (tensor_proto e))"
    and "Tensors m run tag = None"
  shows "pr_curves_loop (Some m) tag (pre @ run # post) acc calls =
     (Inl (ValueError [Lit ''No PR curves could be fetched for run '', Repr run,
                       Lit '' and tag '', Repr tag]),
      calls @ map (\<lambda>r. QueryTensors r tag) (pre @ [run]))"
  using assms
proof (induction pre arbitrary: acc calls)
  case Nil
  then show ?case by simp
next
  case (Cons p pre)
  from Cons.prems obtain events where ev: "Tensors m p tag = Some events"
    and rows: "\<forall>e \<in> set events. 1 < length (tensor_proto e)" by auto
  from process_all_ok [OF rows] obtain entries where en: "process_all events = Inr entries"
    by blast
  from Cons.prems have "\<forall>r \<in> set pre. \<exists>events. Tensors m r tag = Some events
      \<and> (\<forall>e \<in> set events. 1 < length (tensor_proto e))" by simp
  from Cons.IH [OF this Cons.prems(2), of "AList.update p entries acc" "calls @ [QueryTensors p tag]"]
  show ?case by (simp add: ev en)
qed

lemma pr_curves_loop_trace:
  "\<exists>k \<le> length runs. snd (pr_curves_loop mux tag runs acc calls)
      = calls @ map (\<lambda>r. QueryTensors r tag) (take k runs)"
proof (induction runs arbitrary: acc calls)
  case Nil
  show ?case by simp
next
  case (Cons run runs)
  have one: "\<exists>k \<le> length (run # runs). calls @ [QueryTensors run tag]
      = calls @ map (\<lambda>r. QueryTensors r tag) (take k (run # runs))"
    by (rule exI [of _ 1]) simp
  have none: "\<exists>k \<le> length (run # runs). calls
      = calls @ map (\<lambda>r. QueryTensors r tag) (take k (run # runs))"
    by (rule exI [of _ 0]) simp
  have step: "\<exists>k \<le> length (run # runs). snd (pr_curves_loop mux tag runs acc' (calls @ [QueryTensors run tag]))
      = calls @ map (\<lambda>r. QueryTensors r tag) (take k (run # runs))" for acc'
  proof -
    from Cons.IH [of acc' "calls @ [QueryTensors run tag]"] obtain k where
      "k \<le> length runs" and
      "snd (pr_curves_loop mux tag runs acc' (calls @ [QueryTensors run tag]))
        = (calls @ [QueryTensors run tag]) @ map (\<lambda>r. QueryTensors r tag) (take k runs)" by blast
    then show ?thesis by (intro exI [of _ "Suc k"]) simp
  qed
  show ?case
    using one none step by (auto split: option.splits sum.splits)
qed

section \<open>Curves per run\<close>

text \<open>
  C4. When every requested lookup succeeds on arrays that have the two rows,
  \<open>pr_curves_impl\<close> returns a mapping; and whenever it returns a mapping, each requested
  run maps to one entry per event of the store's answer, in the same order: the entry
  at position \<open>i\<close> copies \<open>wall_time\<close> and \<open>step\<close> of the event at position \<open>i\<close>, its
  precision is the row at \<open>PRECISION_INDEX\<close> and its recall the row at \<open>RECALL_INDEX\<close>,
  so that element \<open>j\<close> of either is element \<open>j\<close> of row 0, respectively row 1.
\<close>

theorem pr_curves_impl_entries:
  assumes "multiplexer self = Some m"
  shows "((\<forall>r \<in> set runs. \<exists>events. Tensors m r tag = Some events
              \<and> (\<forall>e \<in> set events. 1 < length (tensor_proto e)))
          \<longrightarrow> (\<exists>mapping. fst (pr_curves_impl self runs tag calls) = Inr mapping))
       \<and> (\<forall>mapping run. fst (pr_curves_impl self runs tag calls) = Inr mapping \<and> run \<in> set runs
          \<longrightarrow> (\<exists>events entries. Tensors m run tag = Some events
                 \<and> map_of mapping run = Some entries
                 \<and> length entries = length events
                 \<and> (\<forall>i < length events.
                       entry_wall_time (entries ! i) = wall_time (events ! i)
                     \<and> entry_step (entries ! i) = step (events ! i)
                     \<and> precision (entries ! i) = tensor_proto (events ! i) ! PRECISION_INDEX
                     \<and> recall (entries ! i) = tensor_proto (events ! i) ! RECALL_INDEX
                     \<and> (\<forall>j. precision (entries ! i) ! j = tensor_proto (events ! i) ! 0 ! j)
                     \<and> (\<forall>j. recall (entries ! i) ! j = tensor_proto (events ! i) ! 1 ! j))))"
proof (intro conjI impI allI)
  assume "\<forall>r \<in> set runs. \<exists>events. Tensors m r tag = Some events
              \<and> (\<forall>e \<in> set events. 1 < length (tensor_proto e))"
  from pr_curves_loop_total [OF this, of "[]" calls]
  show "\<exists>mapping. fst (pr_curves_impl self runs tag calls) = Inr mapping"
    by (auto simp: pr_curves_impl_def assms)
next
  fix mapping run
  assume "fst (pr_curves_impl self runs tag calls) = Inr mapping \<and> run \<in> set runs"
  then have res: "fst (pr_curves_loop (Some m) tag runs [] calls) = Inr mapping"
    and run: "run \<in> set runs"
    by (simp_all add: pr_curves_impl_def assms)
  from pr_curves_loop_values [OF res run] obtain events entries where
    ev: "Tensors m run tag = Some events" and en: "process_all events = Inr entries"
    and val: "map_of mapping run = Some entries" by blast
  from en have "entries = map (\<lambda>e. \<lparr>entry_wall_time = wall_time e, entry_step = step e,
                        precision = tensor_proto e ! 0, recall = tensor_proto e ! 1\<rparr>) events"
    by (simp add: process_all_Inr)
  then have "length entries = length events
      \<and> (\<forall>i < length events.
             entry_wall_time (entries ! i) = wall_time (events ! i)
           \<and> entry_step (entries ! i) = step (events ! i)
           \<and> precision (entries ! i) = tensor_proto (events ! i) ! PRECISION_INDEX
           \<and> recall (entries ! i) = tensor_proto (events ! i) ! RECALL_INDEX
           \<and> (\<forall>j. precision (entries ! i) ! j = tensor_proto (events ! i) ! 0 ! j)
           \<and> (\<forall>j. recall (entries ! i) ! j = tensor_proto (events ! i) ! 1 ! j))"
    by (simp add: PRECISION_INDEX_def RECALL_INDEX_def)
  with ev val show "\<exists>events entries. Tensors m run tag = Some events
                 \<and> map_of mapping run = Some entries
                 \<and> length entries = length events
                 \<and> (\<forall>i < length events.
                       entry_wall_time (entries ! i) = wall_time (events ! i)
                     \<and> entry_step (entries ! i) = step (events ! i)
                     \<and> precision (entries ! i) = tensor_proto (events ! i) ! PRECISION_INDEX
                     \<and> recall (entries ! i) = tensor_proto (events ! i) ! RECALL_INDEX
                     \<and> (\<forall>j. precision (entries ! i) ! j = tensor_proto (events ! i) ! 0 ! j)
                     \<and> (\<forall>j. recall (entries ! i) ! j = tensor_proto (events ! i) ! 1 ! j))"
    by blast
qed

theorem pr_curves_impl_entries_witness:
  "multiplexer demo_plugin = Some demo_multiplexer
   \<and> (\<exists>mapping entries. fst (pr_curves_impl demo_plugin [''colors''] ''blue/pr_curves'' []) = Inr mapping
         \<and> map_of mapping ''colors'' = Some entries
         \<and> length entries = 2
         \<and> entry_step (entries ! 1) = 1
         \<and> precision (entries ! 1) = [1/3, 3/4, 1]
         \<and> recall (entries ! 1) = [1, 1/2, 0])"
proof -
  have mux: "multiplexer demo_plugin = Some demo_multiplexer"
    by (simp add: demo_plugin_def)
  have ev: "Tensors demo_multiplexer ''colors'' ''blue/pr_curves'' = Some demo_events"
    by (simp add: demo_multiplexer_def)
  have ok: "\<forall>r \<in> set [''colors'']. \<exists>events. Tensors demo_multiplexer r ''blue/pr_curves'' = Some events
              \<and> (\<forall>e \<in> set events. 1 < length (tensor_proto e))"
    by (simp add: ev demo_events_def)
  note main = pr_curves_impl_entries [OF mux, of "[''colors'']" "''blue/pr_curves''" "[]"]
  from main ok obtain mapping
    where m: "fst (pr_curves_impl demo_plugin [''colors''] ''blue/pr_curves'' []) = Inr mapping"
    by blast
  from m have "fst (pr_curves_impl demo_plugin [''colors''] ''blue/pr_curves'' []) = Inr mapping
      \<and> ''colors'' \<in> set [''colors'']" by simp
  from main [THEN conjunct2, rule_format, OF this] obtain events entries where
    e1: "Tensors demo_multiplexer ''colors'' ''blue/pr_curves'' = Some events" and
    e2: "map_of mapping ''colors'' = Some entries" and
    e3: "length entries = length events" and
    e4: "\<forall>i < length events.
         entry_wall_time (entries ! i) = wall_time (events ! i)
       \<and> entry_step (entries ! i) = step (events ! i)
       \<and> precision (entries ! i) = tensor_proto (events ! i) ! PRECISION_INDEX
       \<and> recall (entries ! i) = tensor_proto (events ! i) ! RECALL_INDEX
       \<and> (\<forall>j. precision (entries ! i) ! j = tensor_proto (events ! i) ! 0 ! j)
       \<and> (\<forall>j. recall (entries ! i) ! j = tensor_proto (events ! i) ! 1 ! j)"
    by blast
  from e1 ev have evs: "events = demo_events" by simp
  from e3 have len: "length entries = 2" by (simp add: evs demo_events_def)
  have "(1::nat) < length events" by (simp add: evs demo_events_def)
  with e4 have "entry_step (entries ! 1) = step (events ! 1)
       \<and> precision (entries ! 1) = tensor_proto (events ! 1) ! PRECISION_INDEX
       \<and> recall (entries ! 1) = tensor_proto (events ! 1) ! RECALL_INDEX" by blast
  then have "entry_step (entries ! 1) = 1
         \<and> precision (entries ! 1) = [1/3, 3/4, 1]
         \<and> recall (entries ! 1) = [1, 1/2, 0]"
    by (simp add: evs demo_events_def PRECISION_INDEX_def RECALL_INDEX_def)
  with e2 len have "map_of mapping ''colors'' = Some entries \<and> length entries = 2
         \<and> entry_step (entries ! 1) = 1
         \<and> precision (entries ! 1) = [1/3, 3/4, 1]
         \<and> recall (entries ! 1) = [1, 1/2, 0]" by blast
  with mux m show ?thesis by blast
qed

text \<open>
  C2. When the lookup of a requested run raises \<^verbatim>\<open>KeyError\<close>, \<open>pr_curves_impl\<close> returns no
  mapping at all, whatever the other runs are. When the runs before it were processed
  successfully, the failure is the \<^verbatim>\<open>ValueError\<close> whose message carries that run and
  the tag, and the mapping built for the earlier runs is dropped.
\<close>

theorem pr_curves_impl_lookup_failure:
  assumes "multiplexer self = Some m"
    and "Tensors m run tag = None"
  shows "(\<forall>mapping. fst (pr_curves_impl self (pre @ run # post) tag calls) \<noteq> Inr mapping)
       \<and> ((\<forall>r \<in> set pre. \<exists>events. Tensors m r tag = Some events
              \<and> (\<forall>e \<in> set events. 1 < length (tensor_proto e)))
          \<longrightarrow> fst (pr_curves_impl self (pre @ run # post) tag calls)
                = Inl (ValueError [Lit ''No PR curves could be fetched for run '', Repr run,
                                   Lit '' and tag '', Repr tag]))"
proof (intro conjI impI allI)
  fix mapping
  show "fst (pr_curves_impl self (pre @ run # post) tag calls) \<noteq> Inr mapping"
  proof
    assume "fst (pr_curves_impl self (pre @ run # post) tag calls) = Inr mapping"
    then have "fst (pr_curves_loop (Some m) tag (pre @ run # post) [] calls) = Inr mapping"
      by (simp add: pr_curves_impl_def assms(1))
    from pr_curves_loop_values [OF this, of run] assms(2) show False by simp
  qed
next
  assume "\<forall>r \<in> set pre. \<exists>events. Tensors m r tag = Some events
              \<and> (\<forall>e \<in> set events. 1 < length (tensor_proto e))"
  from pr_curves_loop_fail [OF this assms(2), of post "[]" calls]
  show "fst (pr_curves_impl self (pre @ run # post) tag calls)
                = Inl (ValueError [Lit ''No PR curves could be fetched for run '', Repr run,
                                   Lit '' and tag '', Repr tag])"
    by (simp add: pr_curves_impl_def assms(1))
qed

theorem pr_curves_impl_lookup_failure_witness:
  "multiplexer demo_plugin = Some demo_multiplexer
   \<and> Tensors demo_multiplexer ''idle'' ''blue/pr_curves'' = None
   \<and> fst (pr_curves_impl demo_plugin [''colors'', ''idle'', ''colors''] ''blue/pr_curves'' [])
       = Inl (ValueError [Lit ''No PR curves could be fetched for run '', Repr ''idle'',
                          Lit '' and tag '', Repr ''blue/pr_curves''])"
proof -
  have mux: "multiplexer demo_plugin = Some demo_multiplexer"
    by (simp add: demo_plugin_def)
  have miss: "Tensors demo_multiplexer ''idle'' ''blue/pr_curves'' = None"
    by (simp add: demo_multiplexer_def)
  have ok: "\<forall>r \<in> set [''colors'']. \<exists>events. Tensors demo_multiplexer r ''blue/pr_curves'' = Some events
              \<and> (\<forall>e \<in> set events. 1 < length (tensor_proto e))"
    by (simp add: demo_multiplexer_def demo_events_def)
  from pr_curves_impl_lookup_failure [OF mux miss, of "[''colors'']" "[''colors'']" "[]"] ok
  have "fst (pr_curves_impl demo_plugin ([''colors''] @ ''idle'' # [''colors'']) ''blue/pr_curves'' [])
       = Inl (ValueError [Lit ''No PR curves could be fetched for run '', Repr ''idle'',
                          Lit '' and tag '', Repr ''blue/pr_curves''])"
    by blast
  with mux miss show ?thesis by simp
qed

text \<open>
  C10. When every requested lookup succeeds, \<open>pr_curves_impl\<close> returns a mapping, and
  the keys of any mapping it returns are exactly the requested runs, each once: a run
  requested several times is one key, and no other key appears.
\<close>

theorem pr_curves_impl_key_set:
  assumes "multiplexer self = Some m"
  shows "((\<forall>r \<in> set runs. \<exists>events. Tensors m r tag = Some events
              \<and> (\<forall>e \<in> set events. 1 < length (tensor_proto e)))
          \<longrightarrow> (\<exists>mapping. fst (pr_curves_impl self runs tag calls) = Inr mapping))
       \<and> (\<forall>mapping. fst (pr_curves_impl self runs tag calls) = Inr mapping
          \<longrightarrow> set (map fst mapping) = set runs \<and> distinct (map fst mapping)
              \<and> length mapping = card (set runs))"
proof (rule conjI; intro impI allI)
  assume "\<forall>r \<in> set runs. \<exists>events. Tensors m r tag = Some events
              \<and> (\<forall>e \<in> set events. 1 < length (tensor_proto e))"
  from pr_curves_loop_total [OF this, of "[]" calls]
  show "\<exists>mapping. fst (pr_curves_impl self runs tag calls) = Inr mapping"
    by (auto simp: pr_curves_impl_def assms)
next
  fix mapping
  assume "fst (pr_curves_impl self runs tag calls) = Inr mapping"
  then have "fst (pr_curves_loop (multiplexer self) tag runs [] calls) = Inr mapping"
    by (simp add: pr_curves_impl_def)
  from pr_curves_loop_keys [OF this]
  have keys: "set (map fst mapping) = set runs" and dist: "distinct (map fst mapping)"
    by simp_all
  from dist have "card (set (map fst mapping)) = length (map fst mapping)"
    by (rule distinct_card)
  with keys have "length mapping = card (set runs)" by simp
  with keys dist show "set (map fst mapping) = set runs \<and> distinct (map fst mapping)
              \<and> length mapping = card (set runs)" by simp
qed

theorem pr_curves_impl_key_set_witness:
  "multiplexer demo_plugin = Some demo_multiplexer
   \<and> (\<exists>mapping. fst (pr_curves_impl demo_plugin [''colors'', ''colors''] ''blue/pr_curves'' [])
                  = Inr mapping
         \<and> set (map fst mapping) = {''colors''} \<and> length mapping = 1)"
proof -
  have mux: "multiplexer demo_plugin = Some demo_multiplexer"
    by (simp add: demo_plugin_def)
  have ok: "\<forall>r \<in> set [''colors'', ''colors'']. \<exists>events.
              Tensors demo_multiplexer r ''blue/pr_curves'' = Some events
              \<and> (\<forall>e \<in> set events. 1 < length (tensor_proto e))"
    by (simp add: demo_multiplexer_def demo_events_def)
  note main = pr_curves_impl_key_set [OF mux, of "[''colors'', ''colors'']" "''blue/pr_curves''" "[]"]
  from main ok obtain mapping
    where m: "fst (pr_curves_impl demo_plugin [''colors'', ''colors''] ''blue/pr_curves'' []) = Inr mapping"
    by blast
  with main have "set (map fst mapping) = set [''colors'', ''colors'']"
    and "length mapping = card (set [''colors'', ''colors''])" by blast+
  then have "set (map fst mapping) = {''colors''} \<and> length mapping = 1" by simp
  with mux m show ?thesis by blast
qed

end
